theory Spec2Isabelle
  imports Complex_Main
begin

section \<open>Go values and control outcomes\<close>

text \<open>
  A value of Go's empty interface as it occurs in \<open>broadcasttools.go\<close>: what
  \<open>encoding/json\<close> stores when it decodes into \<open>interface{}\<close> (nil, bool, float64, string,
  slice, map) and the \<open>int\<close> that the temperature parser returns. A float64 read from JSON is a
  rational number; the program never computes with it. A Go map is kept as its list of
  entries, read with \<open>map_of\<close>; reading a missing key yields the nil interface, as in Go.
\<close>

datatype iface =
    INil
  | IBool bool
  | IFloat rat
  | IString string
  | ISlice "iface list"
  | IMap "(string \<times> iface) list"
  | IInt int

type_synonym gomap = "(string \<times> iface) list"

definition index_map :: "gomap \<Rightarrow> string \<Rightarrow> iface" where
  "index_map m k = (case map_of m k of None \<Rightarrow> INil | Some v \<Rightarrow> v)"

text \<open>
  A run-time panic is an outcome of its own: it is not an \<open>error\<close> value returned to the
  caller, and unrecovered (the file has no \<open>recover\<close>) it ends the process.
\<close>

datatype panic = NilDereference | TypeAssertion

datatype 'a exec = Return 'a | Panic panic

section \<open>Library functions the program calls\<close>

subsection \<open>strings and strconv\<close>

definition TrimSuffix :: "string \<Rightarrow> string \<Rightarrow> string" where
  "TrimSuffix s suffix =
     (if length suffix \<le> length s \<and> drop (length s - length suffix) s = suffix
      then take (length s - length suffix) s else s)"

definition is_digit :: "char \<Rightarrow> bool" where
  "is_digit ch = (48 \<le> (of_char ch :: nat) \<and> (of_char ch :: nat) \<le> 57)"

definition digit_val :: "char \<Rightarrow> int" where
  "digit_val ch = of_char ch - 48"

datatype num_error = ErrSyntax | ErrRange

definition maxUint64 :: int where
  "maxUint64 = 18446744073709551615"

text \<open>
  Unsigned 64-bit numbers are integers with the bound \<open>maxUint64\<close> written out.
  The digit loop of \<open>strconv.ParseUint\<close> at base 10 and 64 bits: a byte that is not a
  decimal digit is a syntax error; a product or a sum beyond \<open>maxUint64\<close> is a range error,
  reported at once (the bytes after it are not looked at).
\<close>

fun scan_digits :: "int \<Rightarrow> string \<Rightarrow> num_error + int" where
  "scan_digits n [] = Inr n"
| "scan_digits n (ch # cs) =
     (if \<not> is_digit ch then Inl ErrSyntax
      else if n \<ge> maxUint64 div 10 + 1 then Inl ErrRange
      else if n * 10 + digit_val ch > maxUint64 then Inl ErrRange
      else scan_digits (n * 10 + digit_val ch) cs)"

definition ParseUint :: "string \<Rightarrow> int \<times> num_error option" where
  "ParseUint s =
     (if s = [] then (0, Some ErrSyntax)
      else case scan_digits 0 s of
             Inl ErrSyntax \<Rightarrow> (0, Some ErrSyntax)
           | Inl ErrRange \<Rightarrow> (maxUint64, Some ErrRange)
           | Inr n \<Rightarrow> (n, None))"

text \<open>
  \<open>strconv.ParseInt(s, 10, 0)\<close> on a 64-bit platform: an optional sign, then
  \<open>ParseUint\<close>; a syntax error gives 0, a magnitude outside the int64 range gives the
  nearest bound, both together with the error.
\<close>

definition ParseInt :: "string \<Rightarrow> int \<times> num_error option" where
  "ParseInt s =
     (if s = [] then (0, Some ErrSyntax)
      else
        let neg = (hd s = CHR ''-'');
            s1 = (if hd s = CHR ''+'' \<or> hd s = CHR ''-'' then tl s else s);
            (un, err) = ParseUint s1
        in if err = Some ErrSyntax then (0, err)
           else if \<not> neg \<and> un \<ge> 2 ^ 63 then (2 ^ 63 - 1, Some ErrRange)
           else if neg \<and> un > 2 ^ 63 then (- (2 ^ 63), Some ErrRange)
           else (if neg then - un else un, None))"

text \<open>
  \<open>strconv.Atoi\<close>: its fast path for short strings (a sign, then digits, no overflow
  possible) returns what \<open>ParseInt(s, 10, 0)\<close> returns on them, so one definition covers
  both paths. The first component is the \<open>int\<close>, the second the error (\<open>None\<close> is nil).
\<close>

definition Atoi :: "string \<Rightarrow> int \<times> num_error option" where
  "Atoi s = ParseInt s"

subsection \<open>fmt\<close>

fun FormatUint :: "nat \<Rightarrow> string" where
  "FormatUint n =
     (if n < 10 then [''0123456789'' ! n]
      else FormatUint (n div 10) @ [''0123456789'' ! (n mod 10)])"

declare FormatUint.simps [simp del]

text \<open>The verb \<open>%d\<close> of \<open>fmt.Sprintf\<close> on an \<open>int\<close>.\<close>

definition fmt_d :: "int \<Rightarrow> string" where
  "fmt_d i = (if i < 0 then ''-'' @ FormatUint (nat (- i)) else FormatUint (nat i))"

text \<open>
  The verb \<open>%02d\<close>: at least two characters, padded with zeros on the left (the sign of
  a negative number counts towards the width); longer numbers are printed in full.
\<close>

definition fmt_02d :: "int \<Rightarrow> string" where
  "fmt_02d i = (if 0 \<le> i \<and> i < 10 then ''0'' @ fmt_d i else fmt_d i)"

section \<open>The field decoder\<close>

datatype sensorType = sensorTemp | sensorMeter | sensorVC | sensorStatus | sensorRelay

fun sensor_name :: "sensorType \<Rightarrow> string" where
  "sensor_name sensorTemp = ''temp''"
| "sensor_name sensorMeter = ''meter''"
| "sensor_name sensorVC = ''vc''"
| "sensor_name sensorStatus = ''status''"
| "sensor_name sensorRelay = ''relay''"

text \<open>
  Each of the five compiled patterns has the shape \<open>^PREFIX(\d+)$\<close>; a pattern is kept
  as its literal prefix. In Go's regexp syntax \<open>\d\<close> is an ASCII digit, \<open>+\<close> is one or more,
  and \<open>$\<close> (no multi-line flag) is the end of the text. \<open>FindStringSubmatch\<close> returns the
  whole match and the captured group, or nil (the empty slice) when the key does not match.
\<close>

datatype regexp = PrefixDigits string

fun FindStringSubmatch :: "regexp \<Rightarrow> string \<Rightarrow> string list" where
  "FindStringSubmatch (PrefixDigits p) s =
     (if take (length p) s = p \<and> drop (length p) s \<noteq> [] \<and> list_all is_digit (drop (length p) s)
      then [s, drop (length p) s] else [])"

definition regexpTemp :: regexp where "regexpTemp = PrefixDigits ''T1''"
definition regexpMeter :: regexp where "regexpMeter = PrefixDigits ''M1''"
definition regexpVC :: regexp where "regexpVC = PrefixDigits ''VCLabel''"
definition regexpStatus :: regexp where "regexpStatus = PrefixDigits ''S1''"
definition regexpRelay :: regexp where "regexpRelay = PrefixDigits ''R2''"

type_synonym parser = "gomap \<Rightarrow> int \<Rightarrow> (iface \<times> sensorType) exec"

text \<open>
  The temperature parser asserts that the companion value is a string
  (\<open>src[...].(string)\<close>, the one-result form): on anything else, the nil of a missing key
  included, the assertion panics. The error of \<open>Atoi\<close> is dropped and its number kept.
\<close>

definition parseTemp :: parser where
  "parseTemp src idx =
     (case index_map src (''TempValue'' @ fmt_02d idx) of
        IString t \<Rightarrow> Return (IInt (fst (Atoi (TrimSuffix t '' *F''))), sensorTemp)
      | _ \<Rightarrow> Panic TypeAssertion)"

definition parseMeter :: parser where
  "parseMeter src idx = Return (index_map src (''MeterValue'' @ fmt_02d idx), sensorMeter)"

definition parseVC :: parser where
  "parseVC src idx = Return (index_map src (''VCValue'' @ fmt_02d idx), sensorVC)"

definition parseStatus :: parser where
  "parseStatus src idx = Return (index_map src (''StatusIndicator'' @ fmt_02d idx), sensorStatus)"

definition parseRelay :: parser where
  "parseRelay src idx = Return (index_map src (''RelayIndicator'' @ fmt_02d idx), sensorRelay)"

text \<open>
  The table \<open>parsers\<close>. Go ranges over a map in no fixed order; the list fixes one. The
  five prefixes exclude one another, so at most one rule matches a key.
\<close>

definition parsers :: "(regexp \<times> parser) list" where
  "parsers =
     [(regexpTemp, parseTemp), (regexpMeter, parseMeter), (regexpVC, parseVC),
      (regexpStatus, parseStatus), (regexpRelay, parseRelay)]"

text \<open>
  \<open>fields\<close> is a \<open>map[string]interface{}\<close> too. \<open>store_map m k v\<close> is the assignment
  \<open>m[k] = v\<close>: it replaces the entry of \<open>k\<close> or adds one.
\<close>

type_synonym fields = gomap

fun store_map :: "gomap \<Rightarrow> string \<Rightarrow> iface \<Rightarrow> gomap" where
  "store_map [] k v = [(k, v)]"
| "store_map ((k', v') # m) k v =
     (if k' = k then (k, v) # m else (k', v') # store_map m k v)"

definition field_name :: "sensorType \<Rightarrow> int \<Rightarrow> string" where
  "field_name sensor idx = sensor_name sensor @ ''_'' @ fmt_d idx"

text \<open>The inner loop of \<open>device.Gather\<close>: one key against every rule.\<close>

fun match_rules :: "(regexp \<times> parser) list \<Rightarrow> gomap \<Rightarrow> string \<Rightarrow> fields \<Rightarrow> fields exec" where
  "match_rules [] vals key fs = Return fs"
| "match_rules ((reg, p) # rules) vals key fs =
     (let matches = FindStringSubmatch reg key in
      if length matches < 2 then match_rules rules vals key fs
      else case Atoi (matches ! 1) of
             (idx, Some err) \<Rightarrow> match_rules rules vals key fs
           | (idx, None) \<Rightarrow>
               (case p vals idx of
                  Panic x \<Rightarrow> Panic x
                | Return (v, sensor) \<Rightarrow>
                    match_rules rules vals key (store_map fs (field_name sensor idx) v)))"

text \<open>The outer loop: every key of \<open>values\<close>.\<close>

fun decode_keys :: "string list \<Rightarrow> gomap \<Rightarrow> fields \<Rightarrow> fields exec" where
  "decode_keys [] vals fs = Return fs"
| "decode_keys (key # keys) vals fs =
     (case match_rules parsers vals key fs of
        Panic x \<Rightarrow> Panic x
      | Return fs' \<Rightarrow> decode_keys keys vals fs')"

definition decode_fields :: "gomap \<Rightarrow> fields exec" where
  "decode_fields vals = decode_keys (map fst vals) vals []"

section \<open>Transport\<close>

text \<open>
  A URL is the address it was parsed from and its path; \<open>send\<close> replaces the path. A
  cookie is opaque. A request records what \<open>send\<close> builds: method, URL, the form values of
  the body in the order \<open>url.Values.Encode\<close> writes them (sorted by key; \<open>None\<close> is the
  nil reader), the cookie added and the content type set.
\<close>

record url =
  Address :: string
  Path :: string

datatype cookie = Cookie string string

datatype http_method = MethodGet | MethodPost

record request =
  req_method :: http_method
  req_url :: url
  req_data :: "(string \<times> string) list option"
  req_cookie :: "cookie option"
  req_content_type :: "string option"

text \<open>
  Of a response the program reads the status code, the cookies and the body, which it
  hands to the JSON decoder: \<open>Body\<close> is the JSON value the body holds, \<open>None\<close> when it
  holds none (the decoder then fails).
\<close>

record response =
  StatusCode :: nat
  Cookies :: "cookie list"
  Body :: "iface option"

datatype error =
    AlreadyLoggedIn
  | AuthenticationFailed
  | NoCookiesReturned
  | UnexpectedStatus nat nat
  | TransportError string
  | UrlError string
  | JsonError

text \<open>
  The network is what the devices will answer: \<open>pending\<close> holds the outcome of each
  coming call of \<open>http.Client.Do\<close>, a response or a transport failure, and \<open>sent\<close> logs
  every request handed to the client. With nothing pending the call fails (the client's
  timeout).
\<close>

datatype reply = Response response | Failure string

record net =
  pending :: "reply list"
  sent :: "request list"

definition Do :: "request \<Rightarrow> net \<Rightarrow> (error + response) \<times> net" where
  "Do r n =
     (case pending n of
        [] \<Rightarrow> (Inl (TransportError ''timeout''), n\<lparr>sent := sent n @ [r]\<rparr>)
      | Response x # rest \<Rightarrow> (Inr x, \<lparr>pending = rest, sent = sent n @ [r]\<rparr>)
      | Failure msg # rest \<Rightarrow> (Inl (TransportError msg), \<lparr>pending = rest, sent = sent n @ [r]\<rparr>))"

text \<open>
  \<open>http.NewRequest\<close> fails on an invalid method or on a URL text that does not parse; the
  program passes one of two constant methods and the text of a URL that \<open>url.Parse\<close>
  produced, with a constant path, and the model lets it succeed on these.
\<close>

definition NewRequest :: "http_method \<Rightarrow> url \<Rightarrow> (string \<times> string) list option \<Rightarrow> error + request" where
  "NewRequest m u data =
     Inr \<lparr>req_method = m, req_url = u, req_data = data, req_cookie = None,
          req_content_type = None\<rparr>"

text \<open>
  \<open>json.NewDecoder(r.Body).Decode(&data)\<close> with \<open>data\<close> a \<open>map[string]interface{}\<close>: a JSON
  object fills the map, JSON \<open>null\<close> leaves it nil (no error), any other value and any
  text that is not JSON is an error.
\<close>

definition Decode :: "iface option \<Rightarrow> error + gomap" where
  "Decode b =
     (case b of
        None \<Rightarrow> Inl JsonError
      | Some (IMap m) \<Rightarrow> Inr m
      | Some INil \<Rightarrow> Inr []
      | Some _ \<Rightarrow> Inl JsonError)"

section \<open>Devices\<close>

record http_client =
  Timeout :: nat

text \<open>
  The struct \<open>device\<close>: \<open>dev_c\<close> and \<open>dev_ck\<close> are pointers, \<open>None\<close> is nil. The back
  pointer \<open>bt\<close> is not a field here: the functions that follow it take the
  \<open>BroadcastTools\<close> value as an argument.
\<close>

record device =
  dev_base :: url
  dev_c :: "http_client option"
  dev_ck :: "cookie option"

text \<open>
  \<open>rand.Rand\<close>: a generator is the sequence of raw values it will still yield;
  \<open>Intn k\<close> takes the next one modulo \<open>k\<close>.
\<close>

datatype Rand = Rand "nat list"

fun Intn :: "nat \<Rightarrow> Rand \<Rightarrow> nat \<times> Rand" where
  "Intn k (Rand []) = (0, Rand [])"
| "Intn k (Rand (x # xs)) = (x mod k, Rand xs)"

record BroadcastTools =
  Servers :: "string list"
  User :: string
  Password :: string
  devices :: "device list"
  initialized :: bool
  rnd :: "Rand option"

text \<open>
  \<open>device.send\<close>. \<open>r.AddCookie(d.ck)\<close> reads the fields of the cookie it is given, and
  \<open>d.c.Do(r)\<close> those of the client: on a nil pointer either panics.
\<close>

definition send ::
  "device \<Rightarrow> http_method \<Rightarrow> string \<Rightarrow> (string \<times> string) list option \<Rightarrow> bool \<Rightarrow> net
     \<Rightarrow> (error + response) exec \<times> net" where
  "send d m path data sendCookie n =
     (case NewRequest m ((dev_base d)\<lparr>Path := path\<rparr>) data of
        Inl err \<Rightarrow> (Return (Inl err), n)
      | Inr r \<Rightarrow>
          if sendCookie \<and> dev_ck d = None then (Panic NilDereference, n)
          else
            let r1 = (if sendCookie then r\<lparr>req_cookie := dev_ck d\<rparr> else r);
                r2 = (if m = MethodPost
                      then r1\<lparr>req_content_type := Some ''application/x-www-form-urlencoded''\<rparr>
                      else r1)
            in case dev_c d of
                 None \<Rightarrow> (Panic NilDereference, n)
               | Some cl \<Rightarrow> (case Do r2 n of (res, n1) \<Rightarrow> (Return res, n1)))"

text \<open>
  \<open>(*device).Dial\<close>: pointer receiver, so the updated device is returned. The generator
  of \<open>bt\<close> advances, so \<open>bt\<close> is returned too.
\<close>

definition Dial ::
  "BroadcastTools \<Rightarrow> device \<Rightarrow> net \<Rightarrow> error option exec \<times> BroadcastTools \<times> device \<times> net" where
  "Dial bt d n =
     (if dev_ck d \<noteq> None then (Return (Some AlreadyLoggedIn), bt, d, n)
      else case rnd bt of
        None \<Rightarrow> (Panic NilDereference, bt, d, n)
      | Some g \<Rightarrow>
          (case Intn 1000 g of (a, g1) \<Rightarrow>
            let bt1 = bt\<lparr>rnd := Some g1\<rparr>;
                v = [(''AccessVal'', fmt_d (int a)), (''LoginPass'', Password bt),
                     (''LoginUser'', User bt)]
            in case send d MethodPost ''/cgi-bin/postauth.cgi'' (Some v) False n of
                 (Panic x, n1) \<Rightarrow> (Panic x, bt1, d, n1)
               | (Return (Inl err), n1) \<Rightarrow> (Return (Some err), bt1, d, n1)
               | (Return (Inr r), n1) \<Rightarrow>
                   if StatusCode r \<noteq> 200 then (Return (Some AuthenticationFailed), bt1, d, n1)
                   else (case Cookies r of
                           [] \<Rightarrow> (Return (Some NoCookiesReturned), bt1, d, n1)
                         | k # ks \<Rightarrow> (Return None, bt1, d\<lparr>dev_ck := Some k\<rparr>, n1))))"

text \<open>
  \<open>(device).Close\<close> has a value receiver: the body works on a copy of the device.
  \<open>Close_copy\<close> is the body and returns the copy as the body leaves it; \<open>Close\<close> is the
  call, after which the caller's device is what it was.
\<close>

definition Close_copy :: "device \<Rightarrow> net \<Rightarrow> error option exec \<times> device \<times> net" where
  "Close_copy d n =
     (case send d MethodPost ''/cgi-bin/postlogout.cgi'' (Some [(''Logout'', ''1'')]) True n of
        (Panic x, n1) \<Rightarrow> (Panic x, d, n1)
      | (Return (Inl err), n1) \<Rightarrow> (Return None, d, n1)
      | (Return (Inr r), n1) \<Rightarrow> (Return None, d\<lparr>dev_ck := None, dev_c := None\<rparr>, n1))"

definition Close :: "device \<Rightarrow> net \<Rightarrow> error option exec \<times> device \<times> net" where
  "Close d n = (case Close_copy d n of (res, copy, n1) \<Rightarrow> (res, d, n1))"

text \<open>The accumulator of the host: the grouped records and the errors reported to it.\<close>

record accumulator =
  acc_fields :: "(string \<times> fields) list"
  acc_errors :: "error list"

definition AddFields :: "string \<Rightarrow> fields \<Rightarrow> accumulator \<Rightarrow> accumulator" where
  "AddFields measurement fs acc = acc\<lparr>acc_fields := acc_fields acc @ [(measurement, fs)]\<rparr>"

definition AddError :: "error \<Rightarrow> accumulator \<Rightarrow> accumulator" where
  "AddError err acc = acc\<lparr>acc_errors := acc_errors acc @ [err]\<rparr>"

text \<open>
  \<open>(*device).Gather\<close>. \<open>data["values"].(map[string]interface{})\<close> is again the one-result
  assertion: it panics unless the value is a map.
\<close>

definition device_Gather ::
  "BroadcastTools \<Rightarrow> device \<Rightarrow> net \<Rightarrow> accumulator
     \<Rightarrow> error option exec \<times> BroadcastTools \<times> device \<times> net \<times> accumulator" where
  "device_Gather bt d n acc =
     (case send d MethodGet ''/cgi-bin/getexchanger_monitor.cgi'' None True n of
        (Panic x, n1) \<Rightarrow> (Panic x, bt, d, n1, acc)
      | (Return (Inl err), n1) \<Rightarrow> (Return (Some err), bt, d, n1, acc)
      | (Return (Inr r), n1) \<Rightarrow>
          if StatusCode r \<noteq> 200 then
            (if StatusCode r = 206 then
               (case Dial bt d n1 of
                  (Panic x, bt1, d1, n2) \<Rightarrow> (Panic x, bt1, d1, n2, acc)
                | (Return (Some err), bt1, d1, n2) \<Rightarrow> (Return (Some err), bt1, d1, n2, acc)
                | (Return None, bt1, d1, n2) \<Rightarrow>
                    (Return (Some (UnexpectedStatus 200 (StatusCode r))), bt1, d1, n2, acc))
             else (Return (Some (UnexpectedStatus 200 (StatusCode r))), bt, d, n1, acc))
          else
            (case Decode (Body r) of
               Inl err \<Rightarrow> (Return (Some err), bt, d, n1, acc)
             | Inr data \<Rightarrow>
                 (case index_map data ''values'' of
                    IMap vals \<Rightarrow>
                      (case decode_fields vals of
                         Panic x \<Rightarrow> (Panic x, bt, d, n1, acc)
                       | Return fs \<Rightarrow>
                           (Return None, bt, d, n1, AddFields ''broadcasttools'' fs acc))
                  | _ \<Rightarrow> (Panic TypeAssertion, bt, d, n1, acc))))"

section \<open>The fleet\<close>

text \<open>
  The loop of \<open>BroadcastTools.init\<close> over \<open>bt.Servers\<close>. \<open>url.Parse\<close> is the argument
  \<open>parse\<close>. A device enters \<open>bt.devices\<close> once its \<open>Dial\<close> has succeeded; an error returns
  at once and leaves what was appended before it.
\<close>

text \<open>The literal \<open>&device{bt: bt, base: base, c: &http.Client{Timeout: time.Minute}}\<close>.\<close>

definition new_device :: "url \<Rightarrow> device" where
  "new_device base = \<lparr>dev_base = base, dev_c = Some \<lparr>Timeout = 60\<rparr>, dev_ck = None\<rparr>"

fun init_servers ::
  "(string \<Rightarrow> error + url) \<Rightarrow> string list \<Rightarrow> BroadcastTools \<Rightarrow> net
     \<Rightarrow> error option exec \<times> BroadcastTools \<times> net" where
  "init_servers parse [] bt n = (Return None, bt, n)"
| "init_servers parse (u # us) bt n =
     (case parse u of
        Inl err \<Rightarrow> (Return (Some err), bt, n)
      | Inr base \<Rightarrow>
          (case Dial bt (new_device base) n of
             (Panic x, bt1, d1, n1) \<Rightarrow> (Panic x, bt1, n1)
           | (Return (Some err), bt1, d1, n1) \<Rightarrow> (Return (Some err), bt1, n1)
           | (Return None, bt1, d1, n1) \<Rightarrow>
               init_servers parse us (bt1\<lparr>devices := devices bt1 @ [d1]\<rparr>) n1))"

text \<open>
  \<open>BroadcastTools.init\<close>. The argument \<open>g\<close> is the generator that
  \<open>rand.New(rand.NewSource(time.Now().UnixNano()))\<close> returns.
\<close>

definition init ::
  "(string \<Rightarrow> error + url) \<Rightarrow> Rand \<Rightarrow> BroadcastTools \<Rightarrow> net
     \<Rightarrow> error option exec \<times> BroadcastTools \<times> net" where
  "init parse g bt n =
     (if initialized bt then (Return None, bt, n)
      else case init_servers parse (Servers bt) (bt\<lparr>rnd := Some g\<rparr>) n of
             (Return None, bt1, n1) \<Rightarrow> (Return None, bt1\<lparr>initialized := True\<rparr>, n1)
           | (res, bt1, n1) \<Rightarrow> (res, bt1, n1))"

text \<open>
  The goroutines of \<open>BroadcastTools.Gather\<close>, one for each device. A goroutine works on
  its own device, calls the accumulator, and reaches the shared generator only inside
  \<open>Dial\<close>; the model runs them one after the other in the order of \<open>bt.devices\<close>. An error
  of a device goes to \<open>acc.AddError\<close> and the loop goes on; a panic in a goroutine ends
  the process.
\<close>

fun gather_devices ::
  "BroadcastTools \<Rightarrow> device list \<Rightarrow> net \<Rightarrow> accumulator
     \<Rightarrow> unit exec \<times> BroadcastTools \<times> device list \<times> net \<times> accumulator" where
  "gather_devices bt [] n acc = (Return (), bt, [], n, acc)"
| "gather_devices bt (d # ds) n acc =
     (case device_Gather bt d n acc of
        (Panic x, bt1, d1, n1, acc1) \<Rightarrow> (Panic x, bt1, d1 # ds, n1, acc1)
      | (Return err, bt1, d1, n1, acc1) \<Rightarrow>
          (case gather_devices bt1 ds n1
                  (case err of None \<Rightarrow> acc1 | Some e \<Rightarrow> AddError e acc1) of
             (res, bt2, ds2, n2, acc2) \<Rightarrow> (res, bt2, d1 # ds2, n2, acc2)))"

text \<open>
  What the call \<open>d.Gather(a)\<close> of each goroutine returned, in the order of the devices, up
  to the first panic.
\<close>

fun poll_results ::
  "BroadcastTools \<Rightarrow> device list \<Rightarrow> net \<Rightarrow> accumulator \<Rightarrow> error option exec list" where
  "poll_results bt [] n acc = []"
| "poll_results bt (d # ds) n acc =
     (case device_Gather bt d n acc of
        (Panic x, bt1, d1, n1, acc1) \<Rightarrow> [Panic x]
      | (Return err, bt1, d1, n1, acc1) \<Rightarrow>
          Return err # poll_results bt1 ds n1
                         (case err of None \<Rightarrow> acc1 | Some e \<Rightarrow> AddError e acc1))"

text \<open>\<open>BroadcastTools.Gather\<close>: after the wait for all goroutines it returns nil.\<close>

definition Gather ::
  "(string \<Rightarrow> error + url) \<Rightarrow> Rand \<Rightarrow> BroadcastTools \<Rightarrow> net \<Rightarrow> accumulator
     \<Rightarrow> error option exec \<times> BroadcastTools \<times> net \<times> accumulator" where
  "Gather parse g bt n acc =
     (case (if \<not> initialized bt then init parse g bt n else (Return None, bt, n)) of
        (Panic x, bt1, n1) \<Rightarrow> (Panic x, bt1, n1, acc)
      | (Return (Some err), bt1, n1) \<Rightarrow> (Return (Some err), bt1, n1, acc)
      | (Return None, bt1, n1) \<Rightarrow>
          (case gather_devices bt1 (devices bt1) n1 acc of
             (Panic x, bt2, ds, n2, acc2) \<Rightarrow> (Panic x, bt2\<lparr>devices := ds\<rparr>, n2, acc2)
           | (Return u, bt2, ds, n2, acc2) \<Rightarrow> (Return None, bt2\<lparr>devices := ds\<rparr>, n2, acc2)))"

text \<open>
  One round of the loop of \<open>init\<close> for the server \<open>u\<close>, begun in the state \<open>(bt, n)\<close>, returns
  the error \<open>err\<close>: the address does not parse, or \<open>Dial\<close> on the new device fails.
\<close>

definition server_fails ::
  "(string \<Rightarrow> error + url) \<Rightarrow> string \<Rightarrow> BroadcastTools \<Rightarrow> net \<Rightarrow> error \<Rightarrow> bool" where
  "server_fails parse u bt n err =
     (case parse u of
        Inl e \<Rightarrow> e = err
      | Inr base \<Rightarrow> fst (Dial bt (new_device base) n) = Return (Some err))"

section \<open>Example values\<close>

definition ex_base :: url where
  "ex_base = \<lparr>Address = ''http://a'', Path = ''''\<rparr>"

definition ex_dev :: device where
  "ex_dev = \<lparr>dev_base = ex_base, dev_c = Some \<lparr>Timeout = 60\<rparr>,
             dev_ck = Some (Cookie ''sid'' ''old'')\<rparr>"

definition ex_bt :: BroadcastTools where
  "ex_bt = \<lparr>Servers = [''http://a''], User = ''admin'', Password = ''pw'',
            devices = [ex_dev], initialized = True, rnd = Some (Rand [7])\<rparr>"

definition ex_acc :: accumulator where
  "ex_acc = \<lparr>acc_fields = [], acc_errors = []\<rparr>"

definition status_reply :: "nat \<Rightarrow> reply" where
  "status_reply code = Response \<lparr>StatusCode = code, Cookies = [], Body = None\<rparr>"

definition login_reply :: "string \<Rightarrow> reply" where
  "login_reply k = Response \<lparr>StatusCode = 200, Cookies = [Cookie ''sid'' k], Body = None\<rparr>"

definition json_reply :: "iface \<Rightarrow> reply" where
  "json_reply v = Response \<lparr>StatusCode = 200, Cookies = [], Body = Some v\<rparr>"

definition get_request :: "device \<Rightarrow> request" where
  "get_request d =
     \<lparr>req_method = MethodGet,
      req_url = (dev_base d)\<lparr>Path := ''/cgi-bin/getexchanger_monitor.cgi''\<rparr>,
      req_data = None, req_cookie = dev_ck d, req_content_type = None\<rparr>"

definition ex_parse :: "string \<Rightarrow> error + url" where
  "ex_parse u = (if u = '':'' then Inl (UrlError u) else Inr \<lparr>Address = u, Path = ''''\<rparr>)"

definition ex_fresh :: BroadcastTools where
  "ex_fresh = \<lparr>Servers = [''http://a'', ''http://b''], User = ''admin'', Password = ''pw'',
               devices = [], initialized = False, rnd = None\<rparr>"

definition ex_values :: iface where
  "ex_values = IMap [(''values'', IMap [(''T101'', IFloat 1), (''TempValue01'', IString ''68 *F''),
                                        (''M105'', IFloat 1), (''MeterValue05'', IFloat 42)])]"



definition ex_net_login_fails :: net where
  "ex_net_login_fails = \<lparr>pending = [login_reply ''x'', status_reply 403], sent = []\<rparr>"

definition ex_net_login_ok :: net where
  "ex_net_login_ok = \<lparr>pending = [login_reply ''y'', login_reply ''z''], sent = []\<rparr>"

definition ex_after_failed_init :: BroadcastTools where
  "ex_after_failed_init = fst (snd (init ex_parse (Rand [1, 2]) ex_fresh ex_net_login_fails))"

definition ex_after_second_init :: BroadcastTools where
  "ex_after_second_init =
     fst (snd (init ex_parse (Rand [3, 4]) ex_after_failed_init ex_net_login_ok))"

definition ex_net_three_ok :: net where
  "ex_net_three_ok =
     \<lparr>pending = [json_reply ex_values, json_reply ex_values, json_reply ex_values], sent = []\<rparr>"

definition ex_net_first_panics :: net where
  "ex_net_first_panics =
     \<lparr>pending = [json_reply (IMap []), json_reply ex_values, json_reply ex_values], sent = []\<rparr>"


section \<open>Properties of the operations\<close>

lemma send_cookie_held:
  "send d m path data True n = (Return res, n1) \<Longrightarrow> dev_ck d \<noteq> None"
  by (auto simp: send_def NewRequest_def split: if_splits option.splits prod.splits)

lemma Do_sent: "Do r n = (res, n1) \<Longrightarrow> sent n1 = sent n @ [r]"
  by (auto simp: Do_def split: list.splits reply.splits)

lemma send_get_sent:
  "send d MethodGet path None True n = (Return res, n1) \<Longrightarrow>
     sent n1 = sent n @ [\<lparr>req_method = MethodGet, req_url = (dev_base d)\<lparr>Path := path\<rparr>,
         req_data = None, req_cookie = dev_ck d, req_content_type = None\<rparr>]"
  by (auto simp: send_def NewRequest_def Let_def dest: Do_sent split: if_splits option.splits prod.splits)

lemma Dial_held: "dev_ck d \<noteq> None \<Longrightarrow> Dial bt d n = (Return (Some AlreadyLoggedIn), bt, d, n)"
  by (simp add: Dial_def)

lemma device_Gather_frame:
  assumes "device_Gather bt d n acc = (res, bt1, d1, n1, acc1)"
  shows "bt1 = bt \<and> d1 = d"
proof (cases "send d MethodGet ''/cgi-bin/getexchanger_monitor.cgi'' None True n")
  case (Pair out n2)
  show ?thesis
  proof (cases out)
    case (Panic x)
    with Pair assms show ?thesis by (simp add: device_Gather_def)
  next
    case (Return rr)
    with Pair have "dev_ck d \<noteq> None" by (auto dest: send_cookie_held)
    then have D: "Dial bt d n2 = (Return (Some AlreadyLoggedIn), bt, d, n2)" by (rule Dial_held)
    from assms Pair Return D show ?thesis
      by (auto simp: device_Gather_def split: sum.splits if_splits iface.splits exec.splits)
  qed
qed

lemma device_Gather_returns:
  assumes "device_Gather bt d n acc = (Return err, bt1, d1, n1, acc1)"
  shows "sent n1 = sent n @ [get_request d]"
    and "err \<noteq> None \<Longrightarrow> acc1 = acc"
    and "err = None \<Longrightarrow> acc_errors acc1 = acc_errors acc \<and> length (acc_fields acc1) = Suc (length (acc_fields acc))"
proof -
  obtain out n2 where S: "send d MethodGet ''/cgi-bin/getexchanger_monitor.cgi'' None True n = (out, n2)"
    by (cases "send d MethodGet ''/cgi-bin/getexchanger_monitor.cgi'' None True n")
  from assms S obtain rr where R: "out = Return rr"
    by (cases out) (auto simp: device_Gather_def)
  from S R have ck: "dev_ck d \<noteq> None" by (auto dest: send_cookie_held)
  then have D: "Dial bt d n2 = (Return (Some AlreadyLoggedIn), bt, d, n2)" by (rule Dial_held)
  from S R have sn: "sent n2 = sent n @ [get_request d]"
    by (auto simp: get_request_def dest: send_get_sent)
  from assms S R D have n12: "n1 = n2"
    by (auto simp: device_Gather_def split: sum.splits if_splits iface.splits exec.splits)
  with sn show "sent n1 = sent n @ [get_request d]" by simp
  from assms S R D show "err \<noteq> None \<Longrightarrow> acc1 = acc"
    by (auto simp: device_Gather_def split: sum.splits if_splits iface.splits exec.splits)
  from assms S R D show "err = None \<Longrightarrow> acc_errors acc1 = acc_errors acc \<and> length (acc_fields acc1) = Suc (length (acc_fields acc))"
    by (auto simp: device_Gather_def AddFields_def split: sum.splits if_splits iface.splits exec.splits)
qed


lemma gather_devices_run:
  assumes "\<forall>r \<in> set (poll_results bt ds n acc). \<exists>err. r = Return err"
  shows "\<exists>n1 acc1 es.
           gather_devices bt ds n acc = (Return (), bt, ds, n1, acc1)
         \<and> length (poll_results bt ds n acc) = length ds
         \<and> sent n1 = sent n @ map get_request ds
         \<and> acc_errors acc1 = acc_errors acc @ es
         \<and> map (\<lambda>e. Return (Some e)) es = filter (\<lambda>r. r \<noteq> Return None) (poll_results bt ds n acc)
         \<and> length (acc_fields acc1) =
             length (acc_fields acc) + length (filter (\<lambda>r. r = Return None) (poll_results bt ds n acc))"
  using assms
proof (induction ds arbitrary: n acc)
  case Nil
  then show ?case by simp
next
  case (Cons d ds)
  obtain out bt1 d1 n1 acc1 where G: "device_Gather bt d n acc = (out, bt1, d1, n1, acc1)"
    by (cases "device_Gather bt d n acc") auto
  from Cons.prems G obtain err where R: "out = Return err"
    by (cases out) auto
  from G have F: "bt1 = bt" "d1 = d" by (auto dest: device_Gather_frame)
  define acc2 where "acc2 = (case err of None \<Rightarrow> acc1 | Some e \<Rightarrow> AddError e acc1)"
  have P: "poll_results bt (d # ds) n acc = Return err # poll_results bt ds n1 acc2"
    using G R F by (simp add: acc2_def)
  from Cons.prems have "\<forall>r \<in> set (Return err # poll_results bt ds n1 acc2). \<exists>err. r = Return err"
    by (simp only: P)
  then have "\<forall>r \<in> set (poll_results bt ds n1 acc2). \<exists>err. r = Return err" by simp
  from Cons.IH[OF this] obtain n3 acc3 es where IH:
    "gather_devices bt ds n1 acc2 = (Return (), bt, ds, n3, acc3)"
    "length (poll_results bt ds n1 acc2) = length ds"
    "sent n3 = sent n1 @ map get_request ds"
    "acc_errors acc3 = acc_errors acc2 @ es"
    "map (\<lambda>e. Return (Some e)) es = filter (\<lambda>r. r \<noteq> Return None) (poll_results bt ds n1 acc2)"
    "length (acc_fields acc3) =
       length (acc_fields acc2) + length (filter (\<lambda>r. r = Return None) (poll_results bt ds n1 acc2))"
    by blast
  have GD: "gather_devices bt (d # ds) n acc = (Return (), bt, d # ds, n3, acc3)"
    using G R F IH(1) by (simp add: acc2_def)
  have S: "sent n3 = sent n @ map get_request (d # ds)"
    using device_Gather_returns(1)[OF G[unfolded R]] IH(3) by simp
  have L: "length (poll_results bt (d # ds) n acc) = length (d # ds)"
    using P IH(2) by simp
  show ?case
  proof (cases err)
    case None
    then have a2: "acc2 = acc1" by (simp add: acc2_def)
    from device_Gather_returns(3)[OF G[unfolded R] None]
    have "acc_errors acc1 = acc_errors acc" "length (acc_fields acc1) = Suc (length (acc_fields acc))"
      by simp_all
    with a2 IH(4) have "acc_errors acc3 = acc_errors acc @ es" by simp
    moreover have "map (\<lambda>e. Return (Some e)) es =
        filter (\<lambda>r. r \<noteq> Return None) (poll_results bt (d # ds) n acc)"
      using P None IH(5) by simp
    moreover have "length (acc_fields acc3) = length (acc_fields acc)
         + length (filter (\<lambda>r. r = Return None) (poll_results bt (d # ds) n acc))"
      using P None IH(6) a2 \<open>length (acc_fields acc1) = Suc (length (acc_fields acc))\<close> by simp
    ultimately show ?thesis using GD S L by blast
  next
    case (Some e)
    then have a2: "acc2 = AddError e acc1" by (simp add: acc2_def)
    from device_Gather_returns(2)[OF G[unfolded R]] Some have "acc1 = acc" by simp
    with a2 have "acc_errors acc2 = acc_errors acc @ [e]" "acc_fields acc2 = acc_fields acc"
      by (simp_all add: AddError_def)
    with IH(4) have "acc_errors acc3 = acc_errors acc @ (e # es)" by simp
    moreover have "map (\<lambda>e. Return (Some e)) (e # es) =
        filter (\<lambda>r. r \<noteq> Return None) (poll_results bt (d # ds) n acc)"
      using P Some IH(5) by simp
    moreover have "length (acc_fields acc3) = length (acc_fields acc)
         + length (filter (\<lambda>r. r = Return None) (poll_results bt (d # ds) n acc))"
      using P Some IH(6) \<open>acc_fields acc2 = acc_fields acc\<close> by simp
    ultimately show ?thesis using GD S L by blast
  qed
qed

lemma Dial_frame:
  assumes "Dial bt d n = (res, bt1, d1, n1)"
  shows "Servers bt1 = Servers bt" "User bt1 = User bt" "Password bt1 = Password bt"
        "devices bt1 = devices bt" "initialized bt1 = initialized bt"
        "rnd bt \<noteq> None \<Longrightarrow> rnd bt1 \<noteq> None"
        "dev_base d1 = dev_base d" "dev_c d1 = dev_c d"
        "res = Return None \<Longrightarrow> dev_ck d1 \<noteq> None"
  using assms
  by (auto simp: Dial_def Let_def split: if_splits option.splits prod.splits exec.splits sum.splits list.splits)

lemma init_servers_append:
  "init_servers parse (xs @ ys) bt n =
     (case init_servers parse xs bt n of
        (Return None, bt1, n1) \<Rightarrow> init_servers parse ys bt1 n1
      | other \<Rightarrow> other)"
proof (induction xs arbitrary: bt n)
  case Nil
  then show ?case by simp
next
  case (Cons u us)
  show ?case
  proof (cases "parse u")
    case (Inl err)
    then show ?thesis by simp
  next
    case (Inr base)
    obtain res bt1 d1 n1 where D: "Dial bt (new_device base) n = (res, bt1, d1, n1)"
      by (cases "Dial bt (new_device base) n") auto
    show ?thesis
    proof (cases res)
      case (Panic x)
      with Inr D show ?thesis by simp
    next
      case (Return err)
      with Inr D Cons.IH show ?thesis by (cases err) simp_all
    qed
  qed
qed

lemma init_servers_ok:
  assumes "init_servers parse us bt n = (Return None, bt1, n1)"
  shows "\<exists>ds. devices bt1 = devices bt @ ds \<and> map (\<lambda>d. Inr (dev_base d)) ds = map parse us
           \<and> list_all (\<lambda>d. dev_ck d \<noteq> None \<and> dev_c d \<noteq> None) ds"
  using assms
proof (induction us arbitrary: bt n)
  case Nil
  then show ?case by simp
next
  case (Cons u us)
  from Cons.prems obtain base where B: "parse u = Inr base"
    by (cases "parse u") auto
  obtain res bt2 d2 n2 where D: "Dial bt (new_device base) n = (res, bt2, d2, n2)"
    by (cases "Dial bt (new_device base) n") auto
  from Cons.prems B D have R: "res = Return None"
    by (auto split: exec.splits option.splits)
  from Cons.prems B D R have I: "init_servers parse us (bt2\<lparr>devices := devices bt2 @ [d2]\<rparr>) n2 = (Return None, bt1, n1)"
    by simp
  note fr = Dial_frame[OF D]
  from Cons.IH[OF I] obtain ds where ds: "devices bt1 = (devices bt2 @ [d2]) @ ds"
      "map (\<lambda>d. Inr (dev_base d)) ds = map parse us"
      "list_all (\<lambda>d. dev_ck d \<noteq> None \<and> dev_c d \<noteq> None) ds" by auto
  have "dev_base d2 = base" "dev_c d2 \<noteq> None" "dev_ck d2 \<noteq> None"
    using fr(7,8) fr(9)[OF R] by (simp_all add: new_device_def)
  with ds fr(4) B have "devices bt1 = devices bt @ (d2 # ds) \<and> map (\<lambda>d. Inr (dev_base d)) (d2 # ds) = map parse (u # us)
         \<and> list_all (\<lambda>d. dev_ck d \<noteq> None \<and> dev_c d \<noteq> None) (d2 # ds)" by simp
  then show ?case by blast
qed

lemma init_servers_frame:
  assumes "init_servers parse us bt n = (res, bt1, n1)"
  shows "Servers bt1 = Servers bt \<and> initialized bt1 = initialized bt"
  using assms
proof (induction us arbitrary: bt n)
  case Nil
  then show ?case by simp
next
  case (Cons u us)
  show ?case
  proof (cases "parse u")
    case (Inl err)
    with Cons.prems show ?thesis by simp
  next
    case (Inr base)
    obtain r2 bt2 d2 n2 where D: "Dial bt (new_device base) n = (r2, bt2, d2, n2)"
      by (cases "Dial bt (new_device base) n") auto
    note fr = Dial_frame[OF D]
    show ?thesis
    proof (cases r2)
      case (Panic x)
      with Cons.prems Inr D fr show ?thesis by auto
    next
      case (Return err)
      show ?thesis
      proof (cases err)
        case None
        with Cons.prems Inr D Return
        have "init_servers parse us (bt2\<lparr>devices := devices bt2 @ [d2]\<rparr>) n2 = (res, bt1, n1)" by simp
        from Cons.IH[OF this] fr show ?thesis by simp
      next
        case (Some e)
        with Cons.prems Inr D Return fr show ?thesis by auto
      qed
    qed
  qed
qed

lemma init_idempotent: "initialized bt \<Longrightarrow> init parse g bt n = (Return None, bt, n)"
  by (simp add: init_def)

lemma init_result:
  assumes "init parse g bt n = (res, bt1, n1)"
  shows "initialized bt1 = (initialized bt \<or> res = Return None)"
proof (cases "initialized bt")
  case True
  with assms show ?thesis by (simp add: init_def)
next
  case False
  obtain r2 bt2 n2 where I: "init_servers parse (Servers bt) (bt\<lparr>rnd := Some g\<rparr>) n = (r2, bt2, n2)"
    by (cases "init_servers parse (Servers bt) (bt\<lparr>rnd := Some g\<rparr>) n") auto
  from init_servers_frame[OF I] False have nb: "\<not> initialized bt2" by simp
  from assms False I nb show ?thesis
    by (auto simp: init_def split: exec.splits option.splits)
qed

lemma Gather_init_fails:
  assumes "\<not> initialized bt" and "init parse g bt n = (Return (Some err), bt1, n1)"
  shows "Gather parse g bt n acc = (Return (Some err), bt1, n1, acc)"
  using assms by (simp add: Gather_def)

lemma init_servers_fails_at:
  assumes "init_servers parse pre bt n = (Return None, bt1, n1)"
      and "server_fails parse u bt1 n1 err"
  shows "\<exists>bt2 n2. init_servers parse (pre @ u # post) bt n = (Return (Some err), bt2, n2)
           \<and> devices bt2 = devices bt1"
proof (cases "parse u")
  case (Inl e)
  with assms show ?thesis by (simp add: init_servers_append server_fails_def)
next
  case (Inr base)
  obtain r b d m where D: "Dial bt1 (new_device base) n1 = (r, b, d, m)"
    by (cases "Dial bt1 (new_device base) n1") auto
  with assms(2) Inr have "r = Return (Some err)" by (simp add: server_fails_def)
  with D Inr assms(1) Dial_frame(4)[OF D] show ?thesis by (simp add: init_servers_append)
qed

lemma init_fails_at:
  assumes "\<not> initialized bt" and "Servers bt = pre @ u # post"
      and "init_servers parse pre (bt\<lparr>rnd := Some g\<rparr>) n = (Return None, bt1, n1)"
      and "server_fails parse u bt1 n1 err"
  shows "\<exists>bt2 n2. init parse g bt n = (Return (Some err), bt2, n2) \<and> \<not> initialized bt2
           \<and> devices bt2 = devices bt1"
proof -
  from init_servers_fails_at[OF assms(3,4), of post] obtain bt2 n2 where
    I: "init_servers parse (pre @ u # post) (bt\<lparr>rnd := Some g\<rparr>) n = (Return (Some err), bt2, n2)"
    and dv: "devices bt2 = devices bt1" by blast
  from init_servers_frame[OF I] assms(1) have "\<not> initialized bt2" by simp
  moreover from I assms(1,2) have "init parse g bt n = (Return (Some err), bt2, n2)"
    by (simp add: init_def)
  ultimately show ?thesis using dv by blast
qed

lemma gather_devices_Return:
  assumes "gather_devices bt ds n acc = (Return u, bt1, ds1, n1, acc1)"
  shows "\<forall>r \<in> set (poll_results bt ds n acc). \<exists>err. r = Return err"
  using assms
proof (induction ds arbitrary: n acc ds1 bt1 n1 acc1)
  case Nil
  then show ?case by simp
next
  case (Cons d ds)
  obtain out b2 d2 n2 a2 where G: "device_Gather bt d n acc = (out, b2, d2, n2, a2)"
    by (cases "device_Gather bt d n acc") auto
  from G have F: "b2 = bt" "d2 = d" by (auto dest: device_Gather_frame)
  from Cons.prems G obtain err where R: "out = Return err" by (cases out) auto
  define a3 where "a3 = (case err of None \<Rightarrow> a2 | Some e \<Rightarrow> AddError e a2)"
  obtain r3 b3 ds3 n3 a4 where GD: "gather_devices bt ds n2 a3 = (r3, b3, ds3, n3, a4)"
    by (cases "gather_devices bt ds n2 a3") auto
  from Cons.prems G R F GD have "r3 = Return u" by (simp add: a3_def)
  with GD Cons.IH have "\<forall>r \<in> set (poll_results bt ds n2 a3). \<exists>err. r = Return err" by blast
  with G R F show ?case by (simp add: a3_def)
qed

lemma Gather_polls_every_device:
  assumes "initialized bt" and "Gather parse g bt n acc = (Return None, bt1, n1, acc1)"
  shows "bt1 = bt \<and> sent n1 = sent n @ map get_request (devices bt)"
proof -
  obtain r b ds m a where GD: "gather_devices bt (devices bt) n acc = (r, b, ds, m, a)"
    by (cases "gather_devices bt (devices bt) n acc") auto
  from assms GD obtain u where R: "r = Return u" by (cases r) (auto simp: Gather_def)
  from gather_devices_run[OF gather_devices_Return[OF GD[unfolded R]]] GD R
  have "b = bt" "ds = devices bt" "sent m = sent n @ map get_request (devices bt)" by auto
  with assms GD R show ?thesis by (simp add: Gather_def)
qed

lemma Gather_no_panic:
  assumes "initialized bt"
      and "\<forall>r \<in> set (poll_results bt (devices bt) n acc). \<exists>err. r = Return err"
  shows "\<exists>n1 acc1. Gather parse g bt n acc = (Return None, bt, n1, acc1)
           \<and> sent n1 = sent n @ map get_request (devices bt)"
proof -
  from gather_devices_run[OF assms(2)] obtain n1 acc1 where
    "gather_devices bt (devices bt) n acc = (Return (), bt, devices bt, n1, acc1)"
    "sent n1 = sent n @ map get_request (devices bt)"
    by blast
  with assms(1) show ?thesis by (simp add: Gather_def)
qed

section \<open>The claims\<close>

subsection \<open>Session expiry\<close>

text \<open>
  Claim C1 asks that a poll answered with 206 logs in again, and that the next poll
  succeeds with the new token. Evaluated on a device that holds the cookie \<open>old\<close>, with a
  server that answers a GET carrying it with 206. First conjunct: a successful login reply
  is ready, yet the poll returns the error of \<open>Dial\<close>'s guard ("already logged in"), the
  only request sent is the GET, the login reply is still pending, and the device is
  unchanged. Second and third conjunct: two polls in a row; the second starts in the state
  the first one left, sends the cookie \<open>old\<close> again and fails in the same way.
\<close>

theorem C1_expired_session_is_not_renewed:
  "device_Gather ex_bt ex_dev
      \<lparr>pending = [status_reply 206, login_reply ''new''], sent = []\<rparr> ex_acc
     = (Return (Some AlreadyLoggedIn), ex_bt, ex_dev,
        \<lparr>pending = [login_reply ''new''], sent = [get_request ex_dev]\<rparr>, ex_acc)
   \<and> device_Gather ex_bt ex_dev
      \<lparr>pending = [status_reply 206, status_reply 206], sent = []\<rparr> ex_acc
     = (Return (Some AlreadyLoggedIn), ex_bt, ex_dev,
        \<lparr>pending = [status_reply 206], sent = [get_request ex_dev]\<rparr>, ex_acc)
   \<and> device_Gather ex_bt ex_dev
      \<lparr>pending = [status_reply 206], sent = [get_request ex_dev]\<rparr> ex_acc
     = (Return (Some AlreadyLoggedIn), ex_bt, ex_dev,
        \<lparr>pending = [], sent = [get_request ex_dev, get_request ex_dev]\<rparr>, ex_acc)
   \<and> req_cookie (get_request ex_dev) = Some (Cookie ''sid'' ''old'')"
  by code_simp

subsection \<open>Malformed telemetry body\<close>

text \<open>
  Claim C2 asks that a 200 response whose JSON body has no \<open>values\<close> mapping makes the poll
  return an error. Evaluated on the body \<open>{}\<close>: the poll panics in the type assertion, and
  so does the fleet's \<open>Gather\<close> that runs it; nothing is reported to the accumulator.
\<close>

theorem C2_missing_values_panics:
  "device_Gather ex_bt ex_dev \<lparr>pending = [json_reply (IMap [])], sent = []\<rparr> ex_acc
     = (Panic TypeAssertion, ex_bt, ex_dev, \<lparr>pending = [], sent = [get_request ex_dev]\<rparr>, ex_acc)
   \<and> Gather ex_parse (Rand []) ex_bt \<lparr>pending = [json_reply (IMap [])], sent = []\<rparr> ex_acc
     = (Panic TypeAssertion, ex_bt, \<lparr>pending = [], sent = [get_request ex_dev]\<rparr>, ex_acc)"
  by code_simp

subsection \<open>The decoder\<close>




lemma match_rules_no_match:
  "list_all (\<lambda>rule. FindStringSubmatch (fst rule) key = []) rules
     \<Longrightarrow> match_rules rules vals key fs = Return fs"
  by (induction rules) auto

text \<open>
  Claim C3 asks that a pattern key whose companion key is absent gives an absent value
  for that field and leaves the rest of the decoding alone, the temperature key in
  particular. Evaluated on \<open>{"T101": 1, "M105": 1, "MeterValue05": 42}\<close>: the decoder
  panics and no field is produced. The second conjunct is the same situation for a meter
  key, where the field gets the nil value and the other keys are decoded.
\<close>

theorem C3_temperature_without_companion_panics:
  "decode_fields [(''T101'', IFloat 1), (''M105'', IFloat 1), (''MeterValue05'', IFloat 42)]
     = Panic TypeAssertion
   \<and> decode_fields [(''M105'', IFloat 1), (''S101'', IFloat 1), (''StatusIndicator01'', IFloat 0)]
     = Return [(''meter_5'', INil), (''status_1'', IFloat 0)]"
  by code_simp




text \<open>
  Claim C7 says that a key matches a rule only with a suffix of one or two digits, and
  that \<open>"T1005"\<close> matches nothing and is ignored. On the code \<open>"T1005"\<close> matches the
  temperature pattern with the group \<open>"005"\<close>, and the payload
  \<open>{"T1005": 1, "TempValue05": "70 *F"}\<close> decodes to the field \<open>temp_5 = 70\<close>.
\<close>

theorem C7_three_digit_suffix_matches:
  "FindStringSubmatch regexpTemp ''T1005'' = [''T1005'', ''005'']
   \<and> decode_fields [(''T1005'', IFloat 1), (''TempValue05'', IString ''70 *F'')]
       = Return [(''temp_5'', IInt 70)]"
  by code_simp

text \<open>
  Claim C7 as amended: a key matches a rule exactly when it is the rule's prefix followed
  by one or more ASCII digits, however many, and the digits are the captured group; the
  rules are the five prefixes \<open>T1\<close>, \<open>M1\<close>, \<open>VCLabel\<close>, \<open>S1\<close>, \<open>R2\<close>; a key that matches no
  rule is ignored (the fields are left as they are).
\<close>

theorem C7_pattern_match:
  "FindStringSubmatch (PrefixDigits p) key =
     (if (\<exists>ds. key = p @ ds \<and> ds \<noteq> [] \<and> list_all is_digit ds)
      then [key, drop (length p) key] else [])
   \<and> map fst parsers =
       [PrefixDigits ''T1'', PrefixDigits ''M1'', PrefixDigits ''VCLabel'', PrefixDigits ''S1'',
        PrefixDigits ''R2'']
   \<and> (list_all (\<lambda>rule. FindStringSubmatch (fst rule) key = []) parsers
        \<longrightarrow> match_rules parsers vals key fs = Return fs)"
proof (intro conjI impI)
  show "FindStringSubmatch (PrefixDigits p) key =
     (if (\<exists>ds. key = p @ ds \<and> ds \<noteq> [] \<and> list_all is_digit ds)
      then [key, drop (length p) key] else [])"
  proof (cases "\<exists>ds. key = p @ ds \<and> ds \<noteq> [] \<and> list_all is_digit ds")
    case True
    then obtain ds where "key = p @ ds" "ds \<noteq> []" "list_all is_digit ds" by blast
    then show ?thesis using True by simp
  next
    case False
    have "\<not> (take (length p) key = p \<and> drop (length p) key \<noteq> []
              \<and> list_all is_digit (drop (length p) key))"
    proof
      assume h: "take (length p) key = p \<and> drop (length p) key \<noteq> []
              \<and> list_all is_digit (drop (length p) key)"
      then have "key = p @ drop (length p) key" by (metis append_take_drop_id)
      with h False show False by blast
    qed
    then show ?thesis using False by auto
  qed
next
  show "map fst parsers =
       [PrefixDigits ''T1'', PrefixDigits ''M1'', PrefixDigits ''VCLabel'', PrefixDigits ''S1'',
        PrefixDigits ''R2'']"
    by (simp add: parsers_def regexpTemp_def regexpMeter_def regexpVC_def regexpStatus_def
        regexpRelay_def)
next
  assume "list_all (\<lambda>rule. FindStringSubmatch (fst rule) key = []) parsers"
  then show "match_rules parsers vals key fs = Return fs" by (rule match_rules_no_match)
qed

theorem C7_pattern_match_witness:
  "list_all (\<lambda>rule. FindStringSubmatch (fst rule) ''T1x5'' = []) parsers
   \<and> match_rules parsers [(''T1x5'', IFloat 1)] ''T1x5'' [] = Return []
   \<and> FindStringSubmatch (PrefixDigits ''T1'') ''T1005'' = [''T1005'', ''005'']"
proof -
  have h: "list_all (\<lambda>rule. FindStringSubmatch (fst rule) ''T1x5'' = []) parsers" by code_simp
  have e: "\<exists>ds. ''T1005'' = ''T1'' @ ds \<and> ds \<noteq> [] \<and> list_all is_digit ds"
    by (rule exI[of _ "''005''"]) (simp add: is_digit_def)
  from C7_pattern_match[where key = "''T1x5''" and vals = "[(''T1x5'', IFloat 1)]" and fs = "[]"] h
  have "match_rules parsers [(''T1x5'', IFloat 1)] ''T1x5'' [] = Return []" by blast
  moreover from C7_pattern_match[where p = "''T1''" and key = "''T1005''"] e
  have "FindStringSubmatch (PrefixDigits ''T1'') ''T1005'' = [''T1005'', ''005'']"
    by simp
  ultimately show ?thesis using h by blast
qed

subsection \<open>Login and logout\<close>

text \<open>
  Claim C4 asks that after \<open>Close\<close> the device's token is cleared and its client
  released. Evaluated on a device that holds a token, with a transport that answers the
  logout: \<open>Close\<close> returns nil and the device still has its token and its client, because
  the two assignments of the body go to the copy the value receiver made. With a transport
  that fails, the body returns before the assignments, so the copy keeps them too.
\<close>

theorem C4_Close_leaves_token:
  "Close ex_dev \<lparr>pending = [status_reply 200], sent = []\<rparr>
     = (Return None, ex_dev,
        \<lparr>pending = [],
         sent = [\<lparr>req_method = MethodPost,
                  req_url = ex_base\<lparr>Path := ''/cgi-bin/postlogout.cgi''\<rparr>,
                  req_data = Some [(''Logout'', ''1'')],
                  req_cookie = Some (Cookie ''sid'' ''old''),
                  req_content_type = Some ''application/x-www-form-urlencoded''\<rparr>]\<rparr>)
   \<and> dev_ck ex_dev = Some (Cookie ''sid'' ''old'')
   \<and> dev_c ex_dev = Some \<lparr>Timeout = 60\<rparr>
   \<and> fst (snd (Close_copy ex_dev \<lparr>pending = [Failure ''connection refused''], sent = []\<rparr>)) = ex_dev"
  by code_simp

text \<open>
  Claim C5: on a device that holds a token, \<open>Dial\<close> returns the error "already logged
  in"; the network is as before (no request was sent, no reply consumed), and so are the
  device, token included, and the generator.
\<close>

theorem C5_Dial_rejects_held_token:
  "dev_ck d \<noteq> None \<Longrightarrow> Dial bt d n = (Return (Some AlreadyLoggedIn), bt, d, n)"
  by (simp add: Dial_def)

theorem C5_Dial_rejects_held_token_witness:
  "dev_ck ex_dev \<noteq> None
   \<and> Dial ex_bt ex_dev \<lparr>pending = [login_reply ''new''], sent = []\<rparr>
       = (Return (Some AlreadyLoggedIn), ex_bt, ex_dev, \<lparr>pending = [login_reply ''new''], sent = []\<rparr>)"
proof -
  have h: "dev_ck ex_dev \<noteq> None" by (simp add: ex_dev_def)
  from C5_Dial_rejects_held_token[OF h] h show ?thesis by blast
qed

subsection \<open>The fleet\<close>




text \<open>
  Claim C9, first conjunct: in a fleet that is not initialized, when the servers before
  \<open>u\<close> log in and the round for \<open>u\<close> fails with \<open>err\<close> (its address does not parse or its
  login fails), \<open>init\<close> returns \<open>err\<close> and leaves the fleet not initialized; the \<open>Gather\<close>
  that ran it returns \<open>err\<close> with the accumulator untouched, and every later \<open>Gather\<close> runs
  \<open>init\<close> again and, if that fails too, returns its error without polling. Second
  conjunct: a successful \<open>init\<close> marks the fleet initialized, and any further call returns
  nil with the fleet and the network unchanged (no request is sent).
\<close>

theorem C9_init_all_or_nothing:
  "(\<not> initialized bt \<and> Servers bt = pre @ u # post
      \<and> init_servers parse pre (bt\<lparr>rnd := Some g\<rparr>) n = (Return None, bt1, n1)
      \<and> server_fails parse u bt1 n1 err
    \<longrightarrow> (\<exists>bt2 n2. init parse g bt n = (Return (Some err), bt2, n2) \<and> \<not> initialized bt2
           \<and> Gather parse g bt n acc = (Return (Some err), bt2, n2, acc)
           \<and> (\<forall>g' m a e' bt3 m3. init parse g' bt2 m = (Return (Some e'), bt3, m3)
                 \<longrightarrow> Gather parse g' bt2 m a = (Return (Some e'), bt3, m3, a) \<and> \<not> initialized bt3)))
   \<and> (init parse g bt n = (Return None, bt4, n4)
    \<longrightarrow> initialized bt4 \<and> (\<forall>g' m. init parse g' bt4 m = (Return None, bt4, m)))"
proof (intro conjI impI)
  assume h: "\<not> initialized bt \<and> Servers bt = pre @ u # post
      \<and> init_servers parse pre (bt\<lparr>rnd := Some g\<rparr>) n = (Return None, bt1, n1)
      \<and> server_fails parse u bt1 n1 err"
  then obtain bt2 n2 where I: "init parse g bt n = (Return (Some err), bt2, n2)" and ni: "\<not> initialized bt2"
    using init_fails_at[of bt pre u post parse g n bt1 n1 err] by blast
  from h I have G: "Gather parse g bt n acc = (Return (Some err), bt2, n2, acc)"
    by (simp add: Gather_init_fails)
  have L: "\<forall>g' m a e' bt3 m3. init parse g' bt2 m = (Return (Some e'), bt3, m3)
                 \<longrightarrow> Gather parse g' bt2 m a = (Return (Some e'), bt3, m3, a) \<and> \<not> initialized bt3"
    using ni by (auto simp: Gather_init_fails dest: init_result)
  from I ni G L show "\<exists>bt2 n2. init parse g bt n = (Return (Some err), bt2, n2) \<and> \<not> initialized bt2
           \<and> Gather parse g bt n acc = (Return (Some err), bt2, n2, acc)
           \<and> (\<forall>g' m a e' bt3 m3. init parse g' bt2 m = (Return (Some e'), bt3, m3)
                 \<longrightarrow> Gather parse g' bt2 m a = (Return (Some e'), bt3, m3, a) \<and> \<not> initialized bt3)"
    by blast
next
  assume "init parse g bt n = (Return None, bt4, n4)"
  then show "initialized bt4" by (auto dest: init_result)
next
  assume "init parse g bt n = (Return None, bt4, n4)"
  then have "initialized bt4" by (auto dest: init_result)
  then show "\<forall>g' m. init parse g' bt4 m = (Return None, bt4, m)" by (simp add: init_idempotent)
qed

theorem C9_init_all_or_nothing_witness:
  "\<not> initialized ex_fresh
   \<and> Servers ex_fresh = [''http://a''] @ ''http://b'' # []
   \<and> fst (init_servers ex_parse [''http://a''] (ex_fresh\<lparr>rnd := Some (Rand [1, 2])\<rparr>) ex_net_login_fails) = Return None
   \<and> fst (init ex_parse (Rand [1, 2]) ex_fresh ex_net_login_fails) = Return (Some AuthenticationFailed)
   \<and> \<not> initialized (fst (snd (init ex_parse (Rand [1, 2]) ex_fresh ex_net_login_fails)))
   \<and> fst (Gather ex_parse (Rand [1, 2]) ex_fresh ex_net_login_fails ex_acc) = Return (Some AuthenticationFailed)
   \<and> snd (snd (snd (Gather ex_parse (Rand [1, 2]) ex_fresh ex_net_login_fails ex_acc))) = ex_acc
   \<and> fst (init ex_parse (Rand [1, 2]) ex_fresh ex_net_login_ok) = Return None
   \<and> initialized (fst (snd (init ex_parse (Rand [1, 2]) ex_fresh ex_net_login_ok)))
   \<and> init ex_parse (Rand [3]) (fst (snd (init ex_parse (Rand [1, 2]) ex_fresh ex_net_login_ok))) ex_net_login_ok
       = (Return None, fst (snd (init ex_parse (Rand [1, 2]) ex_fresh ex_net_login_ok)), ex_net_login_ok)"
proof -
  let ?X = "init_servers ex_parse [''http://a''] (ex_fresh\<lparr>rnd := Some (Rand [1, 2])\<rparr>) ex_net_login_fails"
  let ?Y = "init ex_parse (Rand [1, 2]) ex_fresh ex_net_login_ok"
  have h1: "\<not> initialized ex_fresh" by (simp add: ex_fresh_def)
  have h2: "Servers ex_fresh = [''http://a''] @ ''http://b'' # []" by (simp add: ex_fresh_def)
  have h3: "fst ?X = Return None" by code_simp
  then have h3': "?X = (Return None, fst (snd ?X), snd (snd ?X))" by (metis prod.collapse)
  have h4: "server_fails ex_parse ''http://b'' (fst (snd ?X)) (snd (snd ?X)) AuthenticationFailed" by code_simp
  have h5: "fst ?Y = Return None" by code_simp
  then have h5': "?Y = (Return None, fst (snd ?Y), snd (snd ?Y))" by (metis prod.collapse)
  note T = C9_init_all_or_nothing[of ex_fresh "[''http://a'']" "''http://b''" "[]" ex_parse "Rand [1, 2]" ex_net_login_fails
          "fst (snd ?X)" "snd (snd ?X)" AuthenticationFailed ex_acc "fst (snd ?Y)" "snd (snd ?Y)"]
  from T h1 h2 h3' h4 obtain bt2 n2 where
    A: "init ex_parse (Rand [1, 2]) ex_fresh ex_net_login_fails = (Return (Some AuthenticationFailed), bt2, n2)"
       "\<not> initialized bt2"
       "Gather ex_parse (Rand [1, 2]) ex_fresh ex_net_login_fails ex_acc = (Return (Some AuthenticationFailed), bt2, n2, ex_acc)"
    by blast
  have "init ex_parse (Rand [1, 2]) ex_fresh ex_net_login_ok = (Return None, fst (snd ?Y), snd (snd ?Y))
    \<longrightarrow> initialized (fst (snd ?Y)) \<and> (\<forall>g' m. init ex_parse g' (fst (snd ?Y)) m = (Return None, fst (snd ?Y), m))"
    using C9_init_all_or_nothing[of ex_fresh "[''http://a'']" "''http://b''" "[]" ex_parse "Rand [1, 2]" ex_net_login_ok
          "fst (snd ?X)" "snd (snd ?X)" AuthenticationFailed ex_acc "fst (snd ?Y)" "snd (snd ?Y)"] by blast
  with h5' have B: "initialized (fst (snd ?Y))"
      "init ex_parse (Rand [3]) (fst (snd ?Y)) ex_net_login_ok = (Return None, fst (snd ?Y), ex_net_login_ok)"
    by blast+
  from h1 h2 h3 h5 A B show ?thesis by simp
qed

text \<open>
  Claim C10 says that after a failed \<open>init\<close> a later call appends a new device for every
  configured server, so that the servers before the failure have two devices each, and
  that each is polled on every later cycle. On the code a later call that fails again
  appends only the devices of the servers before its own failure: after two failures at
  \<open>b\<close> the list is \<open>a\<close>, \<open>a\<close>, with no device for \<open>b\<close>. And after a later call that succeeds
  (devices \<open>a\<close>, \<open>a\<close>, \<open>b\<close>), a cycle in which a poll panics does not poll every device:
  with the body \<open>{}\<close> for the first, the cycle ends with the first GET, and the second
  device of \<open>a\<close> is not polled.
\<close>

theorem C10_panic_leaves_duplicate_unpolled:
  "fst (init ex_parse (Rand [1, 2]) ex_fresh ex_net_login_fails) = Return (Some AuthenticationFailed)
   \<and> fst (init ex_parse (Rand [3, 4]) ex_after_failed_init ex_net_login_fails)
       = Return (Some AuthenticationFailed)
   \<and> map (\<lambda>d. Address (dev_base d))
         (devices (fst (snd (init ex_parse (Rand [3, 4]) ex_after_failed_init ex_net_login_fails))))
       = [''http://a'', ''http://a'']
   \<and> fst (init ex_parse (Rand [3, 4]) ex_after_failed_init ex_net_login_ok) = Return None
   \<and> map (\<lambda>d. Address (dev_base d)) (devices ex_after_second_init)
       = [''http://a'', ''http://a'', ''http://b'']
   \<and> Gather ex_parse (Rand []) ex_after_second_init ex_net_first_panics ex_acc
       = (Panic TypeAssertion, ex_after_second_init,
          \<lparr>pending = [json_reply ex_values, json_reply ex_values],
           sent = [get_request (devices ex_after_second_init ! 0)]\<rparr>,
          ex_acc)"
  by code_simp

text \<open>
  Claim C10 as amended: let \<open>init\<close> fail at the server \<open>u\<close> after the servers \<open>pre\<close> have
  logged in, and let a later \<open>init\<close> succeed. After the failure the device list holds the
  devices of \<open>pre\<close> (\<open>dsA\<close>) behind what it held before; after the later call it holds in
  addition a new device for every configured server (\<open>dsB\<close>), so the addresses of \<open>dsA\<close>
  occur again at the head of \<open>dsB\<close>, and each of these devices holds a token and a client
  of its own. In every later cycle in which no poll panics, \<open>Gather\<close> returns nil, has sent
  one GET for each device of this list, in its order, and leaves the fleet as it is; and
  a \<open>Gather\<close> that returned nil has done so.
\<close>

theorem C10_failed_init_duplicates_devices:
  assumes "\<not> initialized bt" and "Servers bt = pre @ u # post"
      and "init_servers parse pre (bt\<lparr>rnd := Some g\<rparr>) n = (Return None, b1, n1)"
      and "server_fails parse u b1 n1 err"
      and "init parse g bt n = (res, bt1, n2)"
      and "init parse g' bt1 m = (Return None, bt2, m2)"
  shows "\<exists>dsA dsB.
            res = Return (Some err) \<and> \<not> initialized bt1
          \<and> devices bt1 = devices bt @ dsA \<and> map (\<lambda>d. Inr (dev_base d)) dsA = map parse pre
          \<and> devices bt2 = devices bt @ dsA @ dsB \<and> map (\<lambda>d. Inr (dev_base d)) dsB = map parse (Servers bt)
          \<and> map dev_base dsA = take (length pre) (map dev_base dsB)
          \<and> list_all (\<lambda>d. dev_ck d \<noteq> None \<and> dev_c d \<noteq> None) (dsA @ dsB)
          \<and> initialized bt2
          \<and> (\<forall>g3 m3 acc.
                (\<forall>r \<in> set (poll_results bt2 (devices bt2) m3 acc). \<exists>e. r = Return e)
                \<longrightarrow> (\<exists>m4 acc4. Gather parse g3 bt2 m3 acc = (Return None, bt2, m4, acc4)
                       \<and> sent m4 = sent m3 @ map get_request (devices bt2)))
          \<and> (\<forall>g3 m3 acc bt4 m4 acc4. Gather parse g3 bt2 m3 acc = (Return None, bt4, m4, acc4)
               \<longrightarrow> bt4 = bt2 \<and> sent m4 = sent m3 @ map get_request (devices bt2))"
proof -
  from init_fails_at[OF assms(1-4)] assms(5) have
    r: "res = Return (Some err)" and ni: "\<not> initialized bt1" and dv: "devices bt1 = devices b1"
    by auto
  from init_servers_ok[OF assms(3)] obtain dsA where
    A: "devices b1 = devices bt @ dsA" "map (\<lambda>d. Inr (dev_base d)) dsA = map parse pre"
       "list_all (\<lambda>d. dev_ck d \<noteq> None \<and> dev_c d \<noteq> None) dsA"
    by auto
  have S1: "Servers bt1 = Servers bt"
    using assms(1,5) by (auto simp: init_def split: prod.splits exec.splits option.splits dest: init_servers_frame)
  obtain r2 b2 k2 where I2: "init_servers parse (Servers bt1) (bt1\<lparr>rnd := Some g'\<rparr>) m = (r2, b2, k2)"
    by (cases "init_servers parse (Servers bt1) (bt1\<lparr>rnd := Some g'\<rparr>) m") auto
  from assms(6) ni I2 have r2: "r2 = Return None" and b2: "bt2 = b2\<lparr>initialized := True\<rparr>"
    by (auto simp: init_def split: exec.splits option.splits)
  from init_servers_ok[OF I2[unfolded r2]] obtain dsB where
    B: "devices b2 = devices bt1 @ dsB" "map (\<lambda>d. Inr (dev_base d)) dsB = map parse (Servers bt1)"
       "list_all (\<lambda>d. dev_ck d \<noteq> None \<and> dev_c d \<noteq> None) dsB"
    by auto
  have "map (\<lambda>d. Inr (dev_base d) :: error + url) dsA = take (length pre) (map (\<lambda>d. Inr (dev_base d)) dsB)"
    using A(2) B(2) S1 assms(2) by simp
  then have "map (Inr :: url \<Rightarrow> error + url) (map dev_base dsA) = map Inr (take (length pre) (map dev_base dsB))"
    by (simp add: take_map comp_def)
  then have T: "map dev_base dsA = take (length pre) (map dev_base dsB)"
    using inj_map_eq_map[OF inj_Inr] by blast
  have i2: "initialized bt2" using b2 by simp
  have Q: "\<forall>g3 m3 acc.
                (\<forall>r \<in> set (poll_results bt2 (devices bt2) m3 acc). \<exists>e. r = Return e)
                \<longrightarrow> (\<exists>m4 acc4. Gather parse g3 bt2 m3 acc = (Return None, bt2, m4, acc4)
                       \<and> sent m4 = sent m3 @ map get_request (devices bt2))"
    using Gather_no_panic[OF i2] by blast
  have P: "\<forall>g3 m3 acc bt4 m4 acc4. Gather parse g3 bt2 m3 acc = (Return None, bt4, m4, acc4)
               \<longrightarrow> bt4 = bt2 \<and> sent m4 = sent m3 @ map get_request (devices bt2)"
    using Gather_polls_every_device[OF i2] by blast
  have L: "list_all (\<lambda>d. dev_ck d \<noteq> None \<and> dev_c d \<noteq> None) (dsA @ dsB)"
    using A(3) B(3) by simp
  have D2: "devices bt2 = devices bt @ dsA @ dsB" using b2 B(1) dv A(1) by simp
  have D1: "devices bt1 = devices bt @ dsA" using dv A(1) by simp
  have B2: "map (\<lambda>d. Inr (dev_base d)) dsB = map parse (Servers bt)" using B(2) S1 by simp
  from r ni D1 A(2) D2 B2 T L i2 Q P show ?thesis by blast
qed

theorem C10_failed_init_duplicates_devices_witness:
  "\<not> initialized ex_fresh
   \<and> Servers ex_fresh = [''http://a''] @ ''http://b'' # []
   \<and> fst (init_servers ex_parse [''http://a''] (ex_fresh\<lparr>rnd := Some (Rand [1, 2])\<rparr>) ex_net_login_fails)
        = Return None
   \<and> fst (init ex_parse (Rand [1, 2]) ex_fresh ex_net_login_fails) = Return (Some AuthenticationFailed)
   \<and> fst (init ex_parse (Rand [3, 4]) ex_after_failed_init ex_net_login_ok) = Return None
   \<and> length (devices ex_after_failed_init) = 1
   \<and> length (devices ex_after_second_init) = 3
   \<and> map (\<lambda>d. Address (dev_base d)) (devices ex_after_second_init)
       = [''http://a'', ''http://a'', ''http://b'']
   \<and> poll_results ex_after_second_init (devices ex_after_second_init) ex_net_three_ok ex_acc
       = [Return None, Return None, Return None]
   \<and> (\<exists>m4 acc4.
         Gather ex_parse (Rand []) ex_after_second_init ex_net_three_ok ex_acc
           = (Return None, ex_after_second_init, m4, acc4)
       \<and> sent m4 = map get_request (devices ex_after_second_init))"
proof -
  let ?X = "init_servers ex_parse [''http://a''] (ex_fresh\<lparr>rnd := Some (Rand [1, 2])\<rparr>) ex_net_login_fails"
  let ?I = "init ex_parse (Rand [1, 2]) ex_fresh ex_net_login_fails"
  let ?J = "init ex_parse (Rand [3, 4]) ex_after_failed_init ex_net_login_ok"
  have h1: "\<not> initialized ex_fresh" by (simp add: ex_fresh_def)
  have h2: "Servers ex_fresh = [''http://a''] @ ''http://b'' # []" by (simp add: ex_fresh_def)
  have h3: "fst ?X = Return None" by code_simp
  then have h3': "?X = (Return None, fst (snd ?X), snd (snd ?X))" by (metis prod.collapse)
  have h4: "server_fails ex_parse ''http://b'' (fst (snd ?X)) (snd (snd ?X)) AuthenticationFailed"
    by code_simp
  have h5: "?I = (fst ?I, ex_after_failed_init, snd (snd ?I))"
    by (simp add: ex_after_failed_init_def)
  have h6: "fst ?J = Return None" by code_simp
  have "?J = (fst ?J, ex_after_second_init, snd (snd ?J))"
    by (simp add: ex_after_second_init_def)
  with h6 have h6': "?J = (Return None, ex_after_second_init, snd (snd ?J))" by simp
  have d0: "devices ex_fresh = []" by (simp add: ex_fresh_def)
  have ad: "map (\<lambda>d. Address (dev_base d)) (devices ex_after_second_init)
       = [''http://a'', ''http://a'', ''http://b'']" by code_simp
  have pr: "poll_results ex_after_second_init (devices ex_after_second_init) ex_net_three_ok ex_acc
       = [Return None, Return None, Return None]" by code_simp
  then have np: "\<forall>r \<in> set (poll_results ex_after_second_init (devices ex_after_second_init)
                          ex_net_three_ok ex_acc). \<exists>e. r = Return e" by simp
  from C10_failed_init_duplicates_devices[OF h1 h2 h3' h4 h5 h6'] obtain dsA dsB where
    r: "fst ?I = Return (Some AuthenticationFailed)"
    and A: "devices ex_after_failed_init = devices ex_fresh @ dsA"
           "map (\<lambda>d. Inr (dev_base d)) dsA = map ex_parse [''http://a'']"
    and B: "devices ex_after_second_init = devices ex_fresh @ dsA @ dsB"
           "map (\<lambda>d. Inr (dev_base d)) dsB = map ex_parse (Servers ex_fresh)"
    and Q: "\<forall>g3 m3 acc.
              (\<forall>r \<in> set (poll_results ex_after_second_init (devices ex_after_second_init) m3 acc).
                  \<exists>e. r = Return e)
              \<longrightarrow> (\<exists>m4 acc4. Gather ex_parse g3 ex_after_second_init m3 acc
                                 = (Return None, ex_after_second_init, m4, acc4)
                     \<and> sent m4 = sent m3 @ map get_request (devices ex_after_second_init))"
    by blast
  from A(2) have la: "length dsA = 1"
    using length_map[of "\<lambda>d. Inr (dev_base d) :: error + url" dsA] by simp
  from B(2) h2 have lb: "length dsB = 2"
    using length_map[of "\<lambda>d. Inr (dev_base d) :: error + url" dsB] by simp
  from A(1) d0 la have l1: "length (devices ex_after_failed_init) = 1" by simp
  from B(1) d0 la lb have l2: "length (devices ex_after_second_init) = 3" by simp
  from Q np obtain m4 acc4 where
    G: "Gather ex_parse (Rand []) ex_after_second_init ex_net_three_ok ex_acc
          = (Return None, ex_after_second_init, m4, acc4)"
    and S: "sent m4 = sent ex_net_three_ok @ map get_request (devices ex_after_second_init)"
    by blast
  from S have S': "sent m4 = map get_request (devices ex_after_second_init)"
    by (simp add: ex_net_three_ok_def)
  from h1 h2 h3 r h6 l1 l2 ad pr G S' show ?thesis by blast
qed

end
